theory Spec2Isabelle
  imports Complex_Main "HOL-Library.Sublist"
begin

section \<open>Data model of \<open>video_tracker.py\<close>\<close>

text \<open>
  Pixel coordinates and colours are Python integers; a bounding box and a confidence are
  floating-point numbers whose only use is truncation (\<open>int(...)\<close>) and formatting, so
  they are modelled as (finite) reals.
\<close>

type_synonym point = "int \<times> int"
type_synonym color = "int \<times> int \<times> int"
type_synonym history = "int \<rightharpoonup> point list"

text \<open>\<open>self.target_classes\<close> and \<open>self.colors\<close> (lines 41-56): dictionaries that are
  written once in \<open>__init__\<close> and never changed, kept in insertion order.\<close>

definition target_classes :: "(int \<times> string) list" where
  "target_classes =
     [(0, ''person''), (2, ''car''), (3, ''motorcycle''), (5, ''bus''), (7, ''truck'')]"

definition colors :: "(string \<times> color) list" where
  "colors =
     [(''person'', (0, 255, 0)), (''car'', (255, 0, 0)), (''motorcycle'', (0, 0, 255)),
      (''bus'', (255, 255, 0)), (''truck'', (255, 0, 255))]"

text \<open>
  \<open>sv.Detections\<close> holds parallel arrays (\<open>xyxy\<close>, \<open>class_id\<close>, \<open>confidence\<close>,
  \<open>tracker_id\<close>) of one length; indexing with a mask selects the same rows of each.
  It is modelled as the list of its rows. Before the tracker has run there is no
  \<open>tracker_id\<close>; afterwards every row has one.
\<close>

record detection =
  xyxy :: "real \<times> real \<times> real \<times> real"
  class_id :: int
  confidence :: real

record tracked = detection +
  tracker_id :: int

section \<open>Detection filter (lines 119-120)\<close>

text \<open>\<open>np.isin(class_ids, keys)\<close>: one boolean per element.\<close>

definition np_isin :: "int list \<Rightarrow> int list \<Rightarrow> bool list" where
  "np_isin xs keys = map (\<lambda>x. x \<in> set keys) xs"

text \<open>\<open>detections[mask]\<close> with a boolean mask of the same length: the rows whose mask
  entry is true, in order.\<close>

fun select_mask :: "'a list \<Rightarrow> bool list \<Rightarrow> 'a list" where
  "select_mask (d # ds) (b # bs) = (if b then d # select_mask ds bs else select_mask ds bs)"
| "select_mask _ _ = []"

definition filter_detections :: "'a detection_scheme list \<Rightarrow> 'a detection_scheme list" where
  "filter_detections detections =
     (let mask = np_isin (map class_id detections) (map fst target_classes)
      in select_mask detections mask)"

text \<open>\<open>class_id in self.target_classes\<close>: membership among the dictionary's keys.\<close>

definition in_catalog :: "int \<Rightarrow> bool" where
  "in_catalog c = (map_of target_classes c \<noteq> None)"

section \<open>Trajectory store (lines 201-209)\<close>

text \<open>
  The body of \<open>draw_annotations\<close> that the specification calls \<open>record\<close>:
  create the list when the key is absent, append, and keep the last 30 entries
  (\<open>xs[-30:]\<close>) when the list grew beyond 30.
\<close>

definition update_track_history :: "history \<Rightarrow> int \<Rightarrow> point \<Rightarrow> history" where
  "update_track_history track_history track_id center =
     (let th1 = (if track_history track_id = None then track_history(track_id \<mapsto> [])
                 else track_history);
          xs = (case th1 track_id of None \<Rightarrow> [] | Some ys \<Rightarrow> ys) @ [center];
          th2 = th1(track_id \<mapsto> xs)
      in if length xs > 30 then th2(track_id \<mapsto> drop (length xs - 30) xs) else th2)"

text \<open>A sequence of such calls on one track id.\<close>

definition record_all :: "history \<Rightarrow> int \<Rightarrow> point list \<Rightarrow> history" where
  "record_all track_history track_id ps =
     foldl (\<lambda>th p. update_track_history th track_id p) track_history ps"

text \<open>\<open>get(track_id)\<close> of the specification: the stored points, empty when unseen.\<close>

definition trajectory :: "history \<Rightarrow> int \<Rightarrow> point list" where
  "trajectory th track_id = (case th track_id of None \<Rightarrow> [] | Some xs \<Rightarrow> xs)"

section \<open>Frame annotator (lines 162-216)\<close>

text \<open>
  A frame is a numpy array that caller and callee share by reference, and OpenCV draws
  in place. The buffers therefore live in a store: a list of image contents, a buffer's
  address being its index. \<open>frame.copy()\<close> allocates a new buffer at the end of the
  store. What a drawing call paints is OpenCV's business, not this repository's, so the
  pixel effect of each call is a parameter; that a call writes into the array given as
  its first argument and nowhere else is how \<open>mutate\<close> applies it.
\<close>

record 'img draw_ops =
  cv2_rectangle :: "'img \<Rightarrow> point \<Rightarrow> point \<Rightarrow> color \<Rightarrow> int \<Rightarrow> 'img"
  cv2_getTextSize :: "string \<Rightarrow> int \<times> int"
  cv2_putText :: "'img \<Rightarrow> string \<Rightarrow> point \<Rightarrow> color \<Rightarrow> int \<Rightarrow> 'img"
  cv2_polylines :: "'img \<Rightarrow> point list \<Rightarrow> bool \<Rightarrow> color \<Rightarrow> int \<Rightarrow> 'img"
  format_2f :: "real \<Rightarrow> string"

definition copy_frame :: "'img list \<Rightarrow> nat \<Rightarrow> 'img list \<times> nat" where
  "copy_frame h a = (h @ [h ! a], length h)"

definition mutate :: "'img list \<Rightarrow> nat \<Rightarrow> ('img \<Rightarrow> 'img) \<Rightarrow> 'img list" where
  "mutate h a f = h[a := f (h ! a)]"

text \<open>\<open>int(x)\<close> on a float: truncation towards zero.\<close>

definition py_int :: "real \<Rightarrow> int" where
  "py_int x = (if x < 0 then \<lceil>x\<rceil> else \<lfloor>x\<rfloor>)"

text \<open>\<open>str(n)\<close> on an integer, as the f-string of line 194 formats the track id.\<close>

fun str_nat :: "nat \<Rightarrow> string" where
  "str_nat n =
     (if n < 10 then [''0123456789'' ! n]
      else str_nat (n div 10) @ [''0123456789'' ! (n mod 10)])"

definition str_int :: "int \<Rightarrow> string" where
  "str_int i = (if i < 0 then CHR ''-'' # str_nat (nat (- i)) else str_nat (nat i))"

text \<open>One iteration of the loop of lines 180-214, on the buffer at \<open>annotated_frame\<close>.\<close>

definition annotate_detection ::
  "'img draw_ops \<Rightarrow> nat \<Rightarrow> 'img list \<times> history \<Rightarrow> tracked \<Rightarrow> 'img list \<times> history" where
  "annotate_detection cv annotated_frame s d =
     (case map_of target_classes (class_id d) of
        None \<Rightarrow> s
      | Some class_name \<Rightarrow>
          (let h = fst s;
               color = (case map_of colors class_name of
                          Some c \<Rightarrow> c | None \<Rightarrow> (255, 255, 255));
               x1 = py_int (fst (xyxy d));
               y1 = py_int (fst (snd (xyxy d)));
               x2 = py_int (fst (snd (snd (xyxy d))));
               y2 = py_int (snd (snd (snd (xyxy d))));
               h1 = mutate h annotated_frame
                      (\<lambda>img. cv2_rectangle cv img (x1, y1) (x2, y2) color 2);
               label = class_name @ '' #'' @ str_int (tracker_id d) @ '' (''
                         @ format_2f cv (confidence d) @ '')'';
               label_size = cv2_getTextSize cv label;
               h2 = mutate h1 annotated_frame
                      (\<lambda>img. cv2_rectangle cv img (x1, y1 - snd label_size - 10)
                                (x1 + fst label_size, y1) color (- 1));
               h3 = mutate h2 annotated_frame
                      (\<lambda>img. cv2_putText cv img label (x1, y1 - 5) (255, 255, 255) 2);
               center = ((x1 + x2) div 2, (y1 + y2) div 2);
               th = update_track_history (snd s) (tracker_id d) center;
               points = trajectory th (tracker_id d);
               h4 = (if length points > 1
                     then mutate h3 annotated_frame
                            (\<lambda>img. cv2_polylines cv img points False color 2)
                     else h3)
           in (h4, th)))"

text \<open>\<open>draw_annotations\<close> returns the address of the annotated copy; the store and the
  trajectory dictionary, which it changes in place, are returned with it.\<close>

definition draw_annotations ::
  "'img draw_ops \<Rightarrow> 'img list \<Rightarrow> nat \<Rightarrow> tracked list \<Rightarrow> history
     \<Rightarrow> 'img list \<times> nat \<times> history" where
  "draw_annotations cv h frame detections track_history =
     (let (h0, annotated_frame) = copy_frame h frame
      in if length detections = 0 then (h0, annotated_frame, track_history)
         else (let (h', th) = foldl (annotate_detection cv annotated_frame)
                                (h0, track_history) detections
               in (h', annotated_frame, th)))"

section \<open>Statistics (lines 96, 129-131)\<close>

datatype exn = InferenceError | KeyError string | SystemExit int | OSError

type_synonym stats = "(string \<times> nat) list"

text \<open>\<open>{class_name: 0 for class_name in self.target_classes.values()}\<close>\<close>

definition init_stats :: stats where
  "init_stats = map (\<lambda>class_name. (class_name, 0)) (map snd target_classes)"

text \<open>\<open>d[k] += 1\<close>: raises \<open>KeyError\<close> when the key is absent.\<close>

definition dict_incr :: "stats \<Rightarrow> string \<Rightarrow> exn + stats" where
  "dict_incr d k =
     (if map_of d k = None then Inl (KeyError k)
      else Inr (map (\<lambda>(k', v). if k' = k then (k', Suc v) else (k', v)) d))"

fun update_stats :: "stats \<Rightarrow> int list \<Rightarrow> exn + stats" where
  "update_stats detection_stats [] = Inr detection_stats"
| "update_stats detection_stats (c # cs) =
     (case map_of target_classes c of
        None \<Rightarrow> update_stats detection_stats cs
      | Some class_name \<Rightarrow>
          (case dict_incr detection_stats class_name of
             Inl e \<Rightarrow> Inl e
           | Inr st \<Rightarrow> update_stats st cs))"

section \<open>Video source, sink and the environment\<close>

datatype cap_prop = CAP_PROP_FPS | CAP_PROP_FRAME_WIDTH | CAP_PROP_FRAME_HEIGHT | CAP_PROP_FRAME_COUNT

text \<open>
  An existing file as \<open>cv2.VideoCapture\<close> sees it: whether it opens, its frame rate
  (any real), its pixel dimensions and the frame count of its header, and the frames
  that successive \<open>read()\<close> calls return. \<open>cap.get\<close> returns every property as a
  float.
\<close>

record 'img video =
  isOpened :: bool
  fps_of :: real
  width_of :: int
  height_of :: int
  frame_count_of :: int
  frames :: "'img list"

fun cap_get :: "'img video \<Rightarrow> cap_prop \<Rightarrow> real" where
  "cap_get cap CAP_PROP_FPS = fps_of cap"
| "cap_get cap CAP_PROP_FRAME_WIDTH = of_int (width_of cap)"
| "cap_get cap CAP_PROP_FRAME_HEIGHT = of_int (height_of cap)"
| "cap_get cap CAP_PROP_FRAME_COUNT = of_int (frame_count_of cap)"

text \<open>
  \<open>cv2.VideoWriter\<close>: constructing one never raises; a writer that could not be opened
  drops every frame given to \<open>write\<close>.
\<close>

record 'img writer =
  w_path :: string
  w_fps :: int
  w_size :: "int \<times> int"
  w_opened :: bool
  w_frames :: "'img list"

definition writer_write :: "'img writer \<Rightarrow> 'img \<Rightarrow> 'img writer" where
  "writer_write w img = (if w_opened w then w\<lparr>w_frames := w_frames w @ [img]\<rparr> else w)"

text \<open>
  Everything outside the repository: the file system (\<open>None\<close>: the path does not exist),
  whether a sink opens, the detector that \<open>YOLO(model_path)\<close> loads (with
  \<open>sv.Detections.from_ultralytics\<close> applied to its result; the call may raise), the
  tracker \<open>sv.ByteTrack\<close> as a state transformer, OpenCV's drawing, \<open>mkdir\<close>, and
  \<open>str(output_dir / f"{Path(video_path).stem}_tracked.mp4")\<close> and
  \<open>output_dir.absolute()\<close> of pathlib.
\<close>

record ('img, 'ts) env =
  files :: "string \<rightharpoonup> 'img video"
  writer_opens :: "string \<Rightarrow> bool"
  YOLO :: "string \<Rightarrow> exn + ('img \<Rightarrow> exn + detection list)"
  ByteTrack :: 'ts
  update_with_detections :: "'ts \<Rightarrow> detection list \<Rightarrow> 'ts \<times> tracked list"
  ops :: "'img draw_ops"
  mkdir :: "string \<Rightarrow> exn option"
  tracked_path :: "string \<Rightarrow> string \<Rightarrow> string"
  absolute :: "string \<Rightarrow> string"

text \<open>What the program prints, one constructor per \<open>print\<close> statement.\<close>

datatype msg =
    Initializing | ModelLoaded string | ModelLoadFailed | TrackerReady
  | VideoNotFound string
  | StartProcessing string
  | CannotOpen string
  | VideoInfo int int int int
  | Finished string
  | StatsHeader
  | StatLine string nat
  | ProcessingFailed string
  | MissingFile string
  | Banner | Separator | AllDone | OutputDir string

section \<open>\<open>VideoTracker\<close>\<close>

record ('img, 'ts) VideoTracker =
  model :: "'img \<Rightarrow> exn + detection list"
  tracker :: 'ts

text \<open>\<open>__init__\<close> (lines 20-58): a model that fails to load ends the program.\<close>

definition VideoTracker_init ::
  "('img, 'ts) env \<Rightarrow> string \<Rightarrow> msg list \<times> (exn + ('img, 'ts) VideoTracker)" where
  "VideoTracker_init E model_path =
     (case YOLO E model_path of
        Inl e \<Rightarrow> ([Initializing, ModelLoadFailed], Inl (SystemExit 1))
      | Inr m \<Rightarrow> ([Initializing, ModelLoaded model_path, TrackerReady],
                 Inr \<lparr>model = m, tracker = ByteTrack E\<rparr>))"

text \<open>\<open>s.replace(old, new)\<close>: every non-overlapping occurrence, from the left.\<close>

fun str_replace :: "string \<Rightarrow> string \<Rightarrow> string \<Rightarrow> string" where
  "str_replace [] new s = new @ concat (map (\<lambda>c. c # new) s)"
| "str_replace (a # old) new [] = []"
| "str_replace (a # old) new (c # cs) =
     (if prefix (a # old) (c # cs) then new @ str_replace (a # old) new (drop (length old) cs)
      else c # str_replace (a # old) new cs)"

text \<open>Line 90.\<close>

definition default_output_path :: "string \<Rightarrow> string" where
  "default_output_path video_path = str_replace ''.mp4'' ''_tracked.mp4'' video_path"

text \<open>Lines 81-93: the properties read from the source and the sink made from them.\<close>

definition open_writer ::
  "('img, 'ts) env \<Rightarrow> 'img video \<Rightarrow> string \<Rightarrow> string option \<Rightarrow> 'img writer" where
  "open_writer E cap video_path output_path =
     (let fps = py_int (cap_get cap CAP_PROP_FPS);
          width = py_int (cap_get cap CAP_PROP_FRAME_WIDTH);
          height = py_int (cap_get cap CAP_PROP_FRAME_HEIGHT);
          path = (case output_path of None \<Rightarrow> default_output_path video_path | Some p \<Rightarrow> p)
      in \<lparr>w_path = path, w_fps = fps, w_size = (width, height),
          w_opened = writer_opens E path, w_frames = []\<rparr>)"

text \<open>The variables of the loop of lines 105-147. The progress bar and the clock
  (lines 99-103, 136-147) only display; they are left out.\<close>

record ('img, 'ts) loop_state =
  self :: "('img, 'ts) VideoTracker"
  detection_stats :: stats
  track_history :: history
  out :: "'img writer"
  frame_count :: nat

text \<open>Lines 118-134 for one frame, given what the detector returned for it. The frame
  that \<open>cap.read()\<close> returned is a buffer of its own, the only one in the store.\<close>

definition frame_step ::
  "('img, 'ts) env \<Rightarrow> ('img, 'ts) loop_state \<Rightarrow> 'img \<Rightarrow> detection list
     \<Rightarrow> exn + ('img, 'ts) loop_state" where
  "frame_step E s frame raw =
     (let detections = filter_detections raw;
          upd = update_with_detections E (tracker (self s)) detections;
          ann = draw_annotations (ops E) [frame] 0 (snd upd) (track_history s)
      in case update_stats (detection_stats s) (map class_id (snd upd)) of
           Inl e \<Rightarrow> Inl e
         | Inr st \<Rightarrow>
             Inr (s\<lparr>self := (self s)\<lparr>tracker := fst upd\<rparr>,
                    detection_stats := st,
                    track_history := snd (snd ann),
                    out := writer_write (out s) (fst ann ! fst (snd ann)),
                    frame_count := Suc (frame_count s)\<rparr>))"

definition process_frame ::
  "('img, 'ts) env \<Rightarrow> ('img, 'ts) loop_state \<Rightarrow> 'img \<Rightarrow> exn + ('img, 'ts) loop_state" where
  "process_frame E s frame =
     (case model (self s) frame of
        Inl e \<Rightarrow> Inl e
      | Inr raw \<Rightarrow> frame_step E s frame raw)"

text \<open>The loop: one iteration per frame that the source yields; an exception ends it.\<close>

fun process_frames ::
  "('img, 'ts) env \<Rightarrow> ('img, 'ts) loop_state \<Rightarrow> 'img list \<Rightarrow> exn + ('img, 'ts) loop_state" where
  "process_frames E s [] = Inr s"
| "process_frames E s (frame # rest) =
     (case process_frame E s frame of
        Inl e \<Rightarrow> Inl e
      | Inr s' \<Rightarrow> process_frames E s' rest)"

text \<open>What a call of \<open>process_video\<close> that returns leaves behind: the returned flag,
  the instance, and the loop's variables when the loop ran.\<close>

record ('img, 'ts) returned =
  flag :: bool
  self_after :: "('img, 'ts) VideoTracker"
  final :: "('img, 'ts) loop_state option"

definition summary :: "stats \<Rightarrow> msg list" where
  "summary st = map (\<lambda>(class_name, count). StatLine class_name count)
                  (filter (\<lambda>(class_name, count). count > 0) st)"

text \<open>\<open>process_video\<close> (lines 60-160). The message of line 86 shows the width, height
  and rate that line 93 gives to the sink.\<close>

definition process_video ::
  "('img, 'ts) env \<Rightarrow> ('img, 'ts) VideoTracker \<Rightarrow> string \<Rightarrow> string option
     \<Rightarrow> msg list \<times> (exn + ('img, 'ts) returned)" where
  "process_video E slf video_path output_path =
     (case files E video_path of
        None \<Rightarrow> ([VideoNotFound video_path],
                 Inr \<lparr>flag = False, self_after = slf, final = None\<rparr>)
      | Some cap \<Rightarrow>
          if \<not> isOpened cap
          then ([StartProcessing video_path, CannotOpen video_path],
                Inr \<lparr>flag = False, self_after = slf, final = None\<rparr>)
          else
            (let w = open_writer E cap video_path output_path;
                 info = VideoInfo (fst (w_size w)) (snd (w_size w)) (w_fps w)
                          (py_int (cap_get cap CAP_PROP_FRAME_COUNT));
                 s0 = \<lparr>self = slf, detection_stats = init_stats, track_history = Map.empty,
                       out = w, frame_count = 0\<rparr>
             in case process_frames E s0 (frames cap) of
                  Inl e \<Rightarrow> ([StartProcessing video_path, info], Inl e)
                | Inr s \<Rightarrow>
                    ([StartProcessing video_path, info, Finished (w_path w), StatsHeader]
                       @ summary (detection_stats s),
                     Inr \<lparr>flag = True, self_after = self s, final = Some s\<rparr>)))"

section \<open>\<open>main\<close> (lines 218-251)\<close>

record args =
  videos :: "string list"
  model_arg :: string
  output_dir :: string

text \<open>The loop of lines 241-248.\<close>

fun main_videos ::
  "('img, 'ts) env \<Rightarrow> string \<Rightarrow> ('img, 'ts) VideoTracker \<Rightarrow> string list
     \<Rightarrow> msg list \<times> (exn + ('img, 'ts) VideoTracker)" where
  "main_videos E dir trk [] = ([], Inr trk)"
| "main_videos E dir trk (video_path # rest) =
     (if files E video_path \<noteq> None
      then (case process_video E trk video_path (Some (tracked_path E dir video_path)) of
              (ms, Inl e) \<Rightarrow> (ms, Inl e)
            | (ms, Inr r) \<Rightarrow>
                (let ms1 = (if \<not> flag r then [ProcessingFailed video_path] else []);
                     nxt = main_videos E dir (self_after r) rest
                 in (ms @ ms1 @ fst nxt, snd nxt)))
      else (let nxt = main_videos E dir trk rest
            in (MissingFile video_path # fst nxt, snd nxt)))"

definition main :: "('img, 'ts) env \<Rightarrow> args \<Rightarrow> msg list \<times> (exn + unit)" where
  "main E a =
     (case mkdir E (output_dir a) of
        Some e \<Rightarrow> ([], Inl e)
      | None \<Rightarrow>
          (case VideoTracker_init E (model_arg a) of
             (ms, Inl e) \<Rightarrow> (Banner # Separator # ms, Inl e)
           | (ms, Inr trk) \<Rightarrow>
               (case main_videos E (output_dir a) trk (videos a) of
                  (ms', Inl e) \<Rightarrow> (Banner # Separator # ms @ ms', Inl e)
                | (ms', Inr _) \<Rightarrow>
                    (Banner # Separator # ms @ ms' @ [AllDone, OutputDir (absolute E (output_dir a))],
                     Inr ()))))"

section \<open>Derived notions used in the statements\<close>

text \<open>The centre that line 202 computes from the truncated box.\<close>

definition center_of :: "tracked \<Rightarrow> point" where
  "center_of d =
     ((py_int (fst (xyxy d)) + py_int (fst (snd (snd (xyxy d))))) div 2,
      (py_int (fst (snd (xyxy d))) + py_int (snd (snd (snd (xyxy d))))) div 2)"

text \<open>The tracker's state after the loop has fed it the frames \<open>fs\<close>, a frame on which
  the detector raises feeding it nothing.\<close>

definition feed :: "('img, 'ts) env \<Rightarrow> ('img \<Rightarrow> exn + detection list) \<Rightarrow> 'ts \<Rightarrow> 'img \<Rightarrow> 'ts" where
  "feed E m ts frame =
     (case m frame of
        Inl e \<Rightarrow> ts
      | Inr raw \<Rightarrow> fst (update_with_detections E ts (filter_detections raw)))"

text \<open>The same loop state with another detector.\<close>

definition with_model ::
  "('img \<Rightarrow> exn + detection list) \<Rightarrow> ('img, 'ts) loop_state \<Rightarrow> ('img, 'ts) loop_state" where
  "with_model m s = s\<lparr>self := (self s)\<lparr>model := m\<rparr>\<rparr>"

text \<open>A detector whose every answer has lost the detections of class \<open>c\<close>.\<close>

definition without_class ::
  "int \<Rightarrow> ('img \<Rightarrow> exn + detection list) \<Rightarrow> 'img \<Rightarrow> exn + detection list" where
  "without_class c m frame = map_sum id (filter (\<lambda>d. class_id d \<noteq> c)) (m frame)"

text \<open>A statistics dictionary that holds, for each class of the catalog, the count
  \<open>g\<close> gives for its id.\<close>

definition counts_of :: "(int \<Rightarrow> nat) \<Rightarrow> stats" where
  "counts_of g = map (\<lambda>(k, class_name). (class_name, g k)) target_classes"

text \<open>What the tracker returned over the frames \<open>fs\<close>, frame after frame, up to the
  first frame on which the detector raises.\<close>

fun tracker_outputs ::
  "('img, 'ts) env \<Rightarrow> ('img \<Rightarrow> exn + detection list) \<Rightarrow> 'ts \<Rightarrow> 'img list \<Rightarrow> tracked list" where
  "tracker_outputs E m ts [] = []"
| "tracker_outputs E m ts (frame # rest) =
     (case m frame of
        Inl e \<Rightarrow> []
      | Inr raw \<Rightarrow>
          snd (update_with_detections E ts (filter_detections raw))
            @ tracker_outputs E m (fst (update_with_detections E ts (filter_detections raw))) rest)"

section \<open>A concrete environment, for evaluating the definitions\<close>

text \<open>An image is the name of the frame it started from and the shapes drawn on it since.\<close>

datatype shape =
    Rect point point color int
  | Text string point color int
  | Poly "point list" bool color int

type_synonym canvas = "string \<times> shape list"

definition canvas_ops :: "canvas draw_ops" where
  "canvas_ops =
     \<lparr>cv2_rectangle = (\<lambda>img p q c t. (fst img, snd img @ [Rect p q c t])),
      cv2_getTextSize = (\<lambda>s. (10 * int (length s), 12)),
      cv2_putText = (\<lambda>img s p c t. (fst img, snd img @ [Text s p c t])),
      cv2_polylines = (\<lambda>img ps closed c t. (fst img, snd img @ [Poly ps closed c t])),
      format_2f = (\<lambda>x. ''0.90'')\<rparr>"

definition person_box :: detection where
  "person_box = \<lparr>xyxy = (10, 20, 50, 80), class_id = 0, confidence = 9 / 10\<rparr>"

definition alien_box :: detection where
  "alien_box = \<lparr>xyxy = (0, 0, 5, 5), class_id = 99, confidence = 9 / 10\<rparr>"

definition person_7 :: tracked where
  "person_7 = \<lparr>xyxy = (10, 20, 50, 80), class_id = 0, confidence = 9 / 10, tracker_id = 7\<rparr>"

definition alien_8 :: tracked where
  "alien_8 = \<lparr>xyxy = (0, 0, 5, 5), class_id = 99, confidence = 9 / 10, tracker_id = 8\<rparr>"

text \<open>A detector that fails on the frame named \<open>bad\<close> and elsewhere sees a person and
  an object of class 99; a tracker that numbers what it is given, counting on from its
  state.\<close>

definition toy_model :: "canvas \<Rightarrow> exn + detection list" where
  "toy_model frame =
     (if fst frame = ''bad'' then Inl InferenceError else Inr [person_box, alien_box])"

fun number_from :: "int \<Rightarrow> detection list \<Rightarrow> tracked list" where
  "number_from n [] = []"
| "number_from n (d # ds) =
     \<lparr>xyxy = xyxy d, class_id = class_id d, confidence = confidence d, tracker_id = n\<rparr>
       # number_from (n + 1) ds"

definition toy_video :: "real \<Rightarrow> string list \<Rightarrow> canvas video" where
  "toy_video r names =
     \<lparr>isOpened = True, fps_of = r, width_of = 640, height_of = 480,
      frame_count_of = int (length names), frames = map (\<lambda>n. (n, [])) names\<rparr>"

definition toy_env :: "(canvas, int) env" where
  "toy_env =
     \<lparr>files = map_of
        [(''a.mp4'', toy_video (2997 / 100) [''a1'']),
         (''b.mp4'', toy_video 25 [''b1'']),
         (''bad.mp4'', toy_video 25 [''bad'']),
         (''clip.avi'', toy_video 25 []),
         (''notes.txt'', (toy_video 0 [])\<lparr>isOpened := False\<rparr>)],
      writer_opens = (\<lambda>p. \<not> prefix ''/readonly/'' p),
      YOLO = (\<lambda>p. if p = ''yolov8n.pt'' then Inr toy_model else Inl OSError),
      ByteTrack = 1,
      update_with_detections = (\<lambda>ts ds. (ts + int (length ds), number_from ts ds)),
      ops = canvas_ops,
      mkdir = (\<lambda>d. None),
      tracked_path = (\<lambda>d v. d @ ''/'' @ takeWhile (\<lambda>c. c \<noteq> CHR ''.'') v @ ''_tracked.mp4''),
      absolute = (\<lambda>d. ''/work/'' @ d)\<rparr>"

definition toy_tracker :: "(canvas, int) VideoTracker" where
  "toy_tracker = \<lparr>model = toy_model, tracker = 1\<rparr>"

text \<open>Forty centres that shift from frame to frame.\<close>

definition shifting_centers :: "point list" where
  "shifting_centers = map (\<lambda>i. (int i, 2 * int i)) [1..<41]"

section \<open>Properties of the detection filter\<close>

lemma select_mask_map: "select_mask ds (map P ds) = filter P ds"
  by (induction ds) simp_all

lemma filter_detections_filter:
  "filter_detections ds = filter (\<lambda>d. class_id d \<in> {0, 2, 3, 5, 7}) ds"
proof -
  have "np_isin (map class_id ds) (map fst target_classes)
        = map (\<lambda>d. class_id d \<in> {0, 2, 3, 5, 7}) ds"
    by (simp add: np_isin_def target_classes_def)
  then show ?thesis
    by (simp add: filter_detections_def select_mask_map)
qed

lemma in_catalog_iff: "in_catalog c \<longleftrightarrow> c \<in> {0, 2, 3, 5, 7}"
  by (simp add: in_catalog_def target_classes_def)

lemma filter_detections_in_catalog:
  "filter_detections ds = filter (\<lambda>d. in_catalog (class_id d)) ds"
  by (simp add: filter_detections_filter in_catalog_iff)

section \<open>Properties of the trajectory store\<close>

lemma trajectory_update:
  "trajectory (update_track_history th tid c) tid
   = drop (length (trajectory th tid @ [c]) - 30) (trajectory th tid @ [c])"
  by (auto simp: update_track_history_def trajectory_def Let_def split: option.splits)

lemma update_track_history_Some:
  "update_track_history th tid c tid = Some (trajectory (update_track_history th tid c) tid)"
  by (auto simp: update_track_history_def trajectory_def Let_def split: option.splits)

lemma update_track_history_other:
  "k \<noteq> tid \<Longrightarrow> update_track_history th tid c k = th k"
  by (simp add: update_track_history_def Let_def)

lemma drop_last_window:
  "drop (length (drop (length xs - n) xs @ [c]) - n) (drop (length xs - n) xs @ [c])
   = drop (length (xs @ [c]) - n) (xs @ [c])"
  by (cases "length xs < n") (simp_all add: Suc_diff_le)

lemma trajectory_record_all:
  "trajectory (record_all th tid ps) tid
   = (if ps = [] then trajectory th tid
      else drop (length (trajectory th tid @ ps) - 30) (trajectory th tid @ ps))"
proof (induction ps rule: rev_induct)
  case Nil
  show ?case by (simp add: record_all_def)
next
  case (snoc p ps)
  have step: "record_all th tid (ps @ [p]) = update_track_history (record_all th tid ps) tid p"
    by (simp add: record_all_def)
  show ?case
  proof (cases "ps = []")
    case True
    then show ?thesis by (simp add: step trajectory_update record_all_def)
  next
    case False
    then have "trajectory (record_all th tid ps) tid
               = drop (length (trajectory th tid @ ps) - 30) (trajectory th tid @ ps)"
      using snoc.IH by simp
    then show ?thesis
      using drop_last_window [of "trajectory th tid @ ps" 30 p]
      by (simp add: step trajectory_update)
  qed
qed

lemma record_all_Some:
  "ps \<noteq> [] \<Longrightarrow> record_all th tid ps tid = Some (trajectory (record_all th tid ps) tid)"
proof (induction ps rule: rev_induct)
  case Nil
  then show ?case by simp
next
  case (snoc p ps)
  have "record_all th tid (ps @ [p]) = update_track_history (record_all th tid ps) tid p"
    by (simp add: record_all_def)
  then show ?case
    using update_track_history_Some [of "record_all th tid ps" tid p] by simp
qed

text \<open>
  C1. Starting from a history in which the track id is unseen, after the \<open>n\<close>-th of a
  sequence of \<open>record\<close> calls on that id the stored trajectory is exactly the last
  \<open>min n 30\<close> of the \<open>n\<close> points recorded so far, in the order of recording, and so has at
  most 30 entries.
\<close>

theorem trajectory_last_30:
  assumes "th tid = None" and "0 < n" and "n \<le> length ps"
  shows "record_all th tid (take n ps) tid = Some (drop (n - min n 30) (take n ps))
         \<and> length (trajectory (record_all th tid (take n ps)) tid) = min n 30"
proof -
  have ne: "take n ps \<noteq> []" and len: "length (take n ps) = n"
    using assms by auto
  have old: "trajectory th tid = []"
    using assms(1) by (simp add: trajectory_def)
  have "trajectory (record_all th tid (take n ps)) tid = drop (n - 30) (take n ps)"
    using ne len by (simp add: trajectory_record_all old)
  moreover have "n - min n 30 = n - 30"
    by simp
  ultimately have eq: "trajectory (record_all th tid (take n ps)) tid
                       = drop (n - min n 30) (take n ps)"
    by simp
  have "length (drop (n - min n 30) (take n ps)) = min n 30"
    using len by simp
  with eq record_all_Some [OF ne, of th tid] show ?thesis
    by simp
qed

theorem trajectory_last_30_witness:
  "Map.empty (3::int) = (None :: point list option) \<and> (0::nat) < 40
   \<and> 40 \<le> length shifting_centers
   \<and> record_all Map.empty 3 (take 40 shifting_centers) 3 = Some (drop 10 shifting_centers)
   \<and> length (trajectory (record_all Map.empty 3 (take 40 shifting_centers)) 3) = 30"
proof -
  have l: "length shifting_centers = 40"
    by (simp add: shifting_centers_def)
  show ?thesis
    using trajectory_last_30 [of Map.empty 3 40 shifting_centers] l by simp
qed

section \<open>The filter's contract\<close>

text \<open>
  C4. The filter returns exactly the detections whose class id is a key of the catalog
  \<open>{0, 2, 3, 5, 7}\<close>, in their original order (so a subsequence of its input); it returns
  the empty list on the empty list and on a list without any match. It is a function of
  its argument alone.
\<close>

theorem filter_detections_contract:
  "set (map fst target_classes) = {0, 2, 3, 5, 7}
   \<and> filter_detections ds = filter (\<lambda>d. class_id d \<in> {0, 2, 3, 5, 7}) ds
   \<and> subseq (filter_detections ds) ds
   \<and> filter_detections ([] :: detection list) = []
   \<and> ((\<forall>d \<in> set ds. class_id d \<notin> {0, 2, 3, 5, 7}) \<longrightarrow> filter_detections ds = [])"
proof -
  have keys: "set (map fst target_classes) = {0, 2, 3, 5, 7}"
    by (simp add: target_classes_def)
  have none: "(\<forall>d \<in> set ds. class_id d \<notin> {0, 2, 3, 5, 7}) \<longrightarrow> filter_detections ds = []"
    unfolding filter_detections_filter by (simp add: filter_empty_conv)
  have emp: "filter_detections ([] :: detection list) = []"
    by (simp add: filter_detections_filter)
  have sub: "subseq (filter_detections ds) ds"
    by (simp add: filter_detections_filter)
  from keys none emp sub show ?thesis
    using filter_detections_filter [of ds] by simp
qed

theorem filter_detections_contract_witness:
  "class_id alien_box \<notin> {0, 2, 3, 5, 7} \<and> filter_detections [alien_box] = []"
  using filter_detections_contract [of "[alien_box]"] by (simp add: alien_box_def)

text \<open>
  C8. Filtering an already filtered list of detections changes nothing.
\<close>

theorem filter_detections_idempotent:
  "filter_detections (filter_detections ds) = filter_detections ds"
  by (simp add: filter_detections_filter)

section \<open>The annotator and the store of frame buffers\<close>

lemma take_mutate: "take n (mutate h n f) = take n h"
  by (simp add: mutate_def)

lemma length_mutate: "length (mutate h a f) = length h"
  by (simp add: mutate_def)

lemma annotate_detection_store:
  "take n (fst (annotate_detection cv n s d)) = take n (fst s)
   \<and> length (fst (annotate_detection cv n s d)) = length (fst s)"
  by (simp add: annotate_detection_def Let_def take_mutate length_mutate split: option.splits)

lemma foldl_annotate_store:
  "take n (fst (foldl (annotate_detection cv n) s ds)) = take n (fst s)
   \<and> length (fst (foldl (annotate_detection cv n) s ds)) = length (fst s)"
proof (induction ds arbitrary: s)
  case Nil
  show ?case by simp
next
  case (Cons d ds)
  show ?case
    using Cons.IH [of "annotate_detection cv n s d"] annotate_detection_store [of n cv s d]
    by simp
qed

lemma draw_annotations_store:
  "take (length h) (fst (draw_annotations cv h frame ds th)) = h
   \<and> length (fst (draw_annotations cv h frame ds th)) = Suc (length h)
   \<and> fst (snd (draw_annotations cv h frame ds th)) = length h"
proof (cases "length ds = 0")
  case True
  then show ?thesis
    by (simp add: draw_annotations_def copy_frame_def)
next
  case False
  then show ?thesis
    using foldl_annotate_store [of "length h" cv "(h @ [h ! frame], th)" ds]
    by (simp add: draw_annotations_def copy_frame_def split_beta)
qed

lemma annotate_detection_history:
  "snd (annotate_detection cv n s d)
   = (if in_catalog (class_id d)
      then update_track_history (snd s) (tracker_id d) (center_of d) else snd s)"
  by (simp add: annotate_detection_def in_catalog_def center_of_def Let_def
           split: option.splits)

lemma foldl_annotate_history:
  "snd (foldl (annotate_detection cv n) s ds)
   = foldl (\<lambda>th d. update_track_history th (tracker_id d) (center_of d)) (snd s)
       (filter (\<lambda>d. in_catalog (class_id d)) ds)"
proof (induction ds arbitrary: s)
  case Nil
  show ?case by simp
next
  case (Cons d ds)
  show ?case
    using Cons.IH [of "annotate_detection cv n s d"] annotate_detection_history [of cv n s d]
    by simp
qed

lemma draw_annotations_history:
  "snd (snd (draw_annotations cv h frame ds th))
   = foldl (\<lambda>th d. update_track_history th (tracker_id d) (center_of d)) th
       (filter (\<lambda>d. in_catalog (class_id d)) ds)"
proof (cases "length ds = 0")
  case True
  then show ?thesis
    by (simp add: draw_annotations_def copy_frame_def)
next
  case False
  then show ?thesis
    using foldl_annotate_history [of cv "length h" "(h @ [h ! frame], th)" ds]
    by (simp add: draw_annotations_def copy_frame_def split_beta)
qed

text \<open>
  C5. Called with no detections, \<open>draw_annotations\<close> returns a buffer whose content
  equals the content of the input frame, and returns the trajectory history as it was
  given (every buffer that existed before the call is unchanged as well).
\<close>

theorem draw_annotations_no_detections:
  "fst (draw_annotations cv h frame [] th) ! fst (snd (draw_annotations cv h frame [] th))
     = h ! frame
   \<and> snd (snd (draw_annotations cv h frame [] th)) = th
   \<and> take (length h) (fst (draw_annotations cv h frame [] th)) = h"
  by (simp add: draw_annotations_def copy_frame_def)

text \<open>
  C9. Whatever the detections, \<open>draw_annotations\<close> draws on a buffer of its own: the
  returned buffer is not the caller's, and the caller's frame, like every buffer that
  existed before the call, has after the call the content it had before.
\<close>

theorem draw_annotations_keeps_input:
  assumes "frame < length h"
  shows "fst (draw_annotations cv h frame ds th) ! frame = h ! frame
         \<and> fst (snd (draw_annotations cv h frame ds th)) \<noteq> frame
         \<and> take (length h) (fst (draw_annotations cv h frame ds th)) = h"
proof -
  let ?h' = "fst (draw_annotations cv h frame ds th)"
  have st: "take (length h) ?h' = h" and a: "fst (snd (draw_annotations cv h frame ds th)) = length h"
    using draw_annotations_store [of h cv frame ds th] by simp_all
  have "take (length h) ?h' ! frame = ?h' ! frame"
    using assms by simp
  with st a assms show ?thesis
    by simp
qed

theorem draw_annotations_keeps_input_witness:
  "(0::nat) < length [(''f'', []) :: canvas]
   \<and> fst (draw_annotations canvas_ops [(''f'', [])] 0 [person_7, alien_8] Map.empty) ! 0
       = (''f'', [])
   \<and> fst (snd (draw_annotations canvas_ops [(''f'', [])] 0 [person_7, alien_8] Map.empty)) \<noteq> 0"
  using draw_annotations_keeps_input [of 0 "[(''f'', [])]" canvas_ops "[person_7, alien_8]" Map.empty]
  by simp

section \<open>The loop over the frames\<close>

lemma init_stats_counts: "init_stats = counts_of (\<lambda>k. 0)"
  by (simp add: init_stats_def counts_of_def target_classes_def)

lemma dict_incr_counts:
  "map_of target_classes c = Some class_name \<Longrightarrow>
   dict_incr (counts_of g) class_name = Inr (counts_of (g(c := Suc (g c))))"
  by (auto simp: dict_incr_def counts_of_def target_classes_def split: if_splits)

lemma update_stats_counts:
  "update_stats (counts_of g) cs = Inr (counts_of (\<lambda>k. g k + count_list cs k))"
proof (induction cs arbitrary: g)
  case Nil
  show ?case by simp
next
  case (Cons c cs)
  show ?case
  proof (cases "map_of target_classes c")
    case None
    have "counts_of (\<lambda>k. g k + count_list (c # cs) k) = counts_of (\<lambda>k. g k + count_list cs k)"
      using None by (auto simp: counts_of_def target_classes_def split: if_splits)
    then show ?thesis using None Cons.IH [of g] by simp
  next
    case (Some class_name)
    have f: "(\<lambda>k. (g(c := Suc (g c))) k + count_list cs k) = (\<lambda>k. g k + count_list (c # cs) k)"
      by auto
    have "update_stats (counts_of g) (c # cs) = update_stats (counts_of (g(c := Suc (g c)))) cs"
      using Some dict_incr_counts [OF Some, of g] by simp
    also have "\<dots> = Inr (counts_of (\<lambda>k. (g(c := Suc (g c))) k + count_list cs k))"
      by (rule Cons.IH)
    also have "\<dots> = Inr (counts_of (\<lambda>k. g k + count_list (c # cs) k))"
      by (simp only: f)
    finally show ?thesis .
  qed
qed


lemma frame_step_counts:
  assumes "detection_stats s = counts_of g"
  shows "frame_step E s frame raw =
     Inr (s\<lparr>self := (self s)\<lparr>tracker := fst (update_with_detections E (tracker (self s)) (filter_detections raw))\<rparr>,
            detection_stats := counts_of (\<lambda>k. g k + count_list (map class_id
               (snd (update_with_detections E (tracker (self s)) (filter_detections raw)))) k),
            track_history := foldl (\<lambda>th d. update_track_history th (tracker_id d) (center_of d))
               (track_history s) (filter (\<lambda>d. in_catalog (class_id d))
                 (snd (update_with_detections E (tracker (self s)) (filter_detections raw)))),
            out := writer_write (out s)
               (fst (draw_annotations (ops E) [frame] 0
                  (snd (update_with_detections E (tracker (self s)) (filter_detections raw)))
                  (track_history s))
                ! fst (snd (draw_annotations (ops E) [frame] 0
                  (snd (update_with_detections E (tracker (self s)) (filter_detections raw)))
                  (track_history s)))),
            frame_count := Suc (frame_count s)\<rparr>)"
  by (simp add: frame_step_def Let_def assms update_stats_counts draw_annotations_history)

lemma frame_step_fields:
  assumes "detection_stats s = counts_of g"
  shows "\<exists>s'. frame_step E s frame raw = Inr s'
     \<and> self s' = (self s)\<lparr>tracker := fst (update_with_detections E (tracker (self s)) (filter_detections raw))\<rparr>
     \<and> detection_stats s' = counts_of (\<lambda>k. g k + count_list (map class_id
           (snd (update_with_detections E (tracker (self s)) (filter_detections raw)))) k)
     \<and> track_history s' = foldl (\<lambda>th d. update_track_history th (tracker_id d) (center_of d))
           (track_history s) (filter (\<lambda>d. in_catalog (class_id d))
             (snd (update_with_detections E (tracker (self s)) (filter_detections raw))))
     \<and> (\<exists>x. out s' = writer_write (out s) x)
     \<and> frame_count s' = Suc (frame_count s)"
  using frame_step_counts [OF assms, of E frame raw] by auto

lemma writer_write_config:
  "w_path (writer_write w x) = w_path w \<and> w_fps (writer_write w x) = w_fps w
   \<and> w_size (writer_write w x) = w_size w \<and> w_opened (writer_write w x) = w_opened w"
  by (simp add: writer_write_def)

lemma process_frames_run:
  assumes "detection_stats s = counts_of g"
    and "\<forall>f \<in> set fs. \<not> isl (model (self s) f)"
  shows "\<exists>s'. process_frames E s fs = Inr s'
     \<and> self s' = (self s)\<lparr>tracker := foldl (feed E (model (self s))) (tracker (self s)) fs\<rparr>
     \<and> detection_stats s' = counts_of (\<lambda>k. g k + count_list (map class_id
           (tracker_outputs E (model (self s)) (tracker (self s)) fs)) k)
     \<and> track_history s' = foldl (\<lambda>th d. update_track_history th (tracker_id d) (center_of d))
           (track_history s) (filter (\<lambda>d. in_catalog (class_id d))
             (tracker_outputs E (model (self s)) (tracker (self s)) fs))
     \<and> w_path (out s') = w_path (out s) \<and> w_fps (out s') = w_fps (out s)
     \<and> w_size (out s') = w_size (out s) \<and> w_opened (out s') = w_opened (out s)
     \<and> frame_count s' = frame_count s + length fs"
  using assms
proof (induction fs arbitrary: s g)
  case Nil
  then show ?case by simp
next
  case (Cons f rest)
  from Cons.prems(2) obtain raw where raw: "model (self s) f = Inr raw"
    by (cases "model (self s) f") auto
  let ?upd = "update_with_detections E (tracker (self s)) (filter_detections raw)"
  let ?g1 = "\<lambda>k. g k + count_list (map class_id (snd ?upd)) k"
  obtain s1 where s1: "frame_step E s f raw = Inr s1"
    and self1: "self s1 = (self s)\<lparr>tracker := fst ?upd\<rparr>"
    and st1: "detection_stats s1 = counts_of ?g1"
    and th1: "track_history s1 = foldl (\<lambda>th d. update_track_history th (tracker_id d) (center_of d))
           (track_history s) (filter (\<lambda>d. in_catalog (class_id d)) (snd ?upd))"
    and out1: "\<exists>x. out s1 = writer_write (out s) x"
    and fc1: "frame_count s1 = Suc (frame_count s)"
    using frame_step_fields [OF Cons.prems(1), of E f raw] by blast
  have m1: "model (self s1) = model (self s)" and t1: "tracker (self s1) = fst ?upd"
    using self1 by simp_all
  have ok1: "\<forall>f \<in> set rest. \<not> isl (model (self s1) f)"
    using Cons.prems(2) m1 by simp
  from Cons.IH [OF st1 ok1] obtain s' where
    run: "process_frames E s1 rest = Inr s'"
    and self': "self s' = (self s1)\<lparr>tracker := foldl (feed E (model (self s1))) (tracker (self s1)) rest\<rparr>"
    and st': "detection_stats s' = counts_of (\<lambda>k. ?g1 k + count_list (map class_id
           (tracker_outputs E (model (self s1)) (tracker (self s1)) rest)) k)"
    and th': "track_history s' = foldl (\<lambda>th d. update_track_history th (tracker_id d) (center_of d))
           (track_history s1) (filter (\<lambda>d. in_catalog (class_id d))
             (tracker_outputs E (model (self s1)) (tracker (self s1)) rest))"
    and cfg': "w_path (out s') = w_path (out s1) \<and> w_fps (out s') = w_fps (out s1)
     \<and> w_size (out s') = w_size (out s1) \<and> w_opened (out s') = w_opened (out s1)"
    and fc': "frame_count s' = frame_count s1 + length rest"
    by blast
  have feed1: "feed E (model (self s)) (tracker (self s)) f = fst ?upd"
    by (simp add: feed_def raw)
  have outs: "tracker_outputs E (model (self s)) (tracker (self s)) (f # rest)
              = snd ?upd @ tracker_outputs E (model (self s)) (fst ?upd) rest"
    by (simp add: raw)
  have a: "process_frames E s (f # rest) = Inr s'"
    by (simp add: process_frame_def raw s1 run)
  have b: "self s' = (self s)\<lparr>tracker := foldl (feed E (model (self s))) (tracker (self s)) (f # rest)\<rparr>"
    by (simp add: self' self1 feed1)
  have c: "detection_stats s' = counts_of (\<lambda>k. g k + count_list (map class_id
           (tracker_outputs E (model (self s)) (tracker (self s)) (f # rest))) k)"
    unfolding outs by (simp add: st' m1 t1 add.assoc)
  have d: "track_history s' = foldl (\<lambda>th d. update_track_history th (tracker_id d) (center_of d))
           (track_history s) (filter (\<lambda>d. in_catalog (class_id d))
             (tracker_outputs E (model (self s)) (tracker (self s)) (f # rest)))"
    unfolding outs by (simp add: th' th1 m1 t1)
  have e: "w_path (out s') = w_path (out s) \<and> w_fps (out s') = w_fps (out s)
     \<and> w_size (out s') = w_size (out s) \<and> w_opened (out s') = w_opened (out s)"
    using cfg' out1 writer_write_config by metis
  have f: "frame_count s' = frame_count s + length (f # rest)"
    by (simp add: fc' fc1)
  from a b c d e f show ?case by blast
qed


lemma process_frames_append:
  "process_frames E s (xs @ ys)
   = (case process_frames E s xs of Inl e \<Rightarrow> Inl e | Inr s' \<Rightarrow> process_frames E s' ys)"
  by (induction xs arbitrary: s) (simp_all split: sum.splits)

lemma process_frames_raise:
  assumes "detection_stats s = counts_of g"
    and "\<forall>f \<in> set pre. \<not> isl (model (self s) f)"
    and "model (self s) f = Inl e"
  shows "process_frames E s (pre @ f # post) = Inl e"
proof -
  from process_frames_run [OF assms(1,2), of E] obtain s' where
    run: "process_frames E s pre = Inr s'"
    and slf: "self s' = (self s)\<lparr>tracker := foldl (feed E (model (self s))) (tracker (self s)) pre\<rparr>"
    by blast
  have "model (self s') f = Inl e"
    using slf assms(3) by simp
  then show ?thesis
    by (simp add: process_frames_append run process_frame_def)
qed

lemma process_frames_config:
  "process_frames E s fs = Inr s' \<Longrightarrow>
   w_path (out s') = w_path (out s) \<and> w_fps (out s') = w_fps (out s)
   \<and> w_size (out s') = w_size (out s) \<and> w_opened (out s') = w_opened (out s)"
proof (induction fs arbitrary: s)
  case Nil
  then show ?case by simp
next
  case (Cons f rest)
  from Cons.prems obtain s1 where s1: "process_frame E s f = Inr s1"
    and rest: "process_frames E s1 rest = Inr s'"
    by (auto split: sum.splits)
  from s1 have "\<exists>x. out s1 = writer_write (out s) x"
    by (auto simp: process_frame_def frame_step_def Let_def split: sum.splits)
  then show ?case
    using Cons.IH [OF rest] writer_write_config by metis
qed

lemma process_frames_unopened:
  "process_frames E s fs = Inr s' \<Longrightarrow> \<not> w_opened (out s) \<Longrightarrow> w_frames (out s') = w_frames (out s)"
proof (induction fs arbitrary: s)
  case Nil
  then show ?case by simp
next
  case (Cons f rest)
  from Cons.prems obtain s1 where s1: "process_frame E s f = Inr s1"
    and rest: "process_frames E s1 rest = Inr s'"
    by (auto split: sum.splits)
  from s1 have "\<exists>x. out s1 = writer_write (out s) x"
    by (auto simp: process_frame_def frame_step_def Let_def split: sum.splits)
  then have "out s1 = out s"
    using Cons.prems(2) by (auto simp: writer_write_def)
  then show ?case
    using Cons.IH [OF rest] Cons.prems(2) by simp
qed

lemma filter_detections_without:
  "\<not> in_catalog c \<Longrightarrow>
   filter_detections (filter (\<lambda>d. class_id d \<noteq> c) raw) = filter_detections raw"
  unfolding filter_detections_in_catalog by (induction raw) auto

lemma frame_step_with_model:
  "frame_step E (with_model m s) frame raw = map_sum id (with_model m) (frame_step E s frame raw)"
  by (simp add: frame_step_def with_model_def Let_def split: sum.splits)

lemma frame_step_raw:
  "filter_detections raw = filter_detections raw' \<Longrightarrow>
   frame_step E s frame raw = frame_step E s frame raw'"
  by (simp add: frame_step_def)

lemma frame_step_model:
  "frame_step E s frame raw = Inr s1 \<Longrightarrow> model (self s1) = model (self s)"
  by (auto simp: frame_step_def Let_def split: sum.splits)

lemma process_frames_without_class:
  assumes "\<not> in_catalog c"
  shows "process_frames E (with_model (without_class c (model (self s))) s) fs
         = map_sum id (with_model (without_class c (model (self s)))) (process_frames E s fs)"
proof (induction fs arbitrary: s)
  case Nil
  show ?case by simp
next
  case (Cons f rest)
  let ?m' = "without_class c (model (self s))"
  show ?case
  proof (cases "model (self s) f")
    case (Inl e)
    then show ?thesis
      by (simp add: process_frame_def with_model_def without_class_def)
  next
    case (Inr raw)
    have "process_frame E (with_model ?m' s) f
          = frame_step E (with_model ?m' s) f (filter (\<lambda>d. class_id d \<noteq> c) raw)"
      using Inr by (simp add: process_frame_def with_model_def without_class_def)
    also have "\<dots> = frame_step E (with_model ?m' s) f raw"
      by (rule frame_step_raw) (simp add: filter_detections_without [OF assms])
    also have "\<dots> = map_sum id (with_model ?m') (frame_step E s f raw)"
      by (rule frame_step_with_model)
    finally have step: "process_frame E (with_model ?m' s) f
                = map_sum id (with_model ?m') (frame_step E s f raw)" .
    show ?thesis
    proof (cases "frame_step E s f raw")
      case (Inl e)
      then show ?thesis
        using step Inr by (simp add: process_frame_def)
    next
      case s1: (Inr s1)
      have "model (self s1) = model (self s)"
        using s1 by (rule frame_step_model)
      then show ?thesis
        using step Inr s1 Cons.IH [of s1] by (simp add: process_frame_def)
    qed
  qed
qed

lemma update_stats_without:
  "\<not> in_catalog c \<Longrightarrow>
   update_stats st (map class_id (filter (\<lambda>d. class_id d \<noteq> c) ds))
   = update_stats st (map class_id ds)"
proof (induction ds arbitrary: st)
  case Nil
  show ?case by simp
next
  case (Cons d ds)
  then show ?case
    by (cases "class_id d = c") (auto simp: in_catalog_def split: option.splits sum.splits)
qed

lemma draw_annotations_without:
  "\<not> in_catalog c \<Longrightarrow>
   snd (snd (draw_annotations cv h frame (filter (\<lambda>d. class_id d \<noteq> c) ds) th))
   = snd (snd (draw_annotations cv h frame ds th))"
proof -
  assume "\<not> in_catalog c"
  then have "filter (\<lambda>d. in_catalog (class_id d)) (filter (\<lambda>d. class_id d \<noteq> c) ds)
             = filter (\<lambda>d. in_catalog (class_id d)) ds"
    by (induction ds) auto
  then show ?thesis
    by (simp only: draw_annotations_history)
qed

section \<open>A call of \<open>process_video\<close>\<close>

lemma py_int_of_int: "py_int (of_int i) = i"
  by (simp add: py_int_def)

lemma open_writer_config:
  "w_fps (open_writer E cap v outp) = py_int (fps_of cap)
   \<and> w_size (open_writer E cap v outp) = (width_of cap, height_of cap)
   \<and> w_path (open_writer E cap v outp)
       = (case outp of None \<Rightarrow> default_output_path v | Some p \<Rightarrow> p)
   \<and> w_opened (open_writer E cap v outp) = writer_opens E (w_path (open_writer E cap v outp))
   \<and> w_frames (open_writer E cap v outp) = []"
  by (simp add: open_writer_def Let_def py_int_of_int)

lemma process_video_ok:
  assumes "files E v = Some cap" and "isOpened cap"
    and "\<forall>f \<in> set (frames cap). \<not> isl (model slf f)"
  shows "\<exists>s. process_video E slf v outp =
           ([StartProcessing v,
             VideoInfo (width_of cap) (height_of cap) (py_int (fps_of cap)) (frame_count_of cap),
             Finished (case outp of None \<Rightarrow> default_output_path v | Some p \<Rightarrow> p),
             StatsHeader]
              @ summary (counts_of (\<lambda>k. count_list (map class_id
                   (tracker_outputs E (model slf) (tracker slf) (frames cap))) k)),
            Inr \<lparr>flag = True,
                 self_after = slf\<lparr>tracker := foldl (feed E (model slf)) (tracker slf) (frames cap)\<rparr>,
                 final = Some s\<rparr>)
         \<and> detection_stats s = counts_of (\<lambda>k. count_list (map class_id
                   (tracker_outputs E (model slf) (tracker slf) (frames cap))) k)
         \<and> track_history s = foldl (\<lambda>th d. update_track_history th (tracker_id d) (center_of d))
               Map.empty (filter (\<lambda>d. in_catalog (class_id d))
                 (tracker_outputs E (model slf) (tracker slf) (frames cap)))
         \<and> frame_count s = length (frames cap)"
proof -
  let ?w = "open_writer E cap v outp"
  let ?s0 = "\<lparr>self = slf, detection_stats = init_stats, track_history = Map.empty,
              out = ?w, frame_count = 0\<rparr>"
  have st0: "detection_stats ?s0 = counts_of (\<lambda>k. 0)"
    by (simp add: init_stats_counts)
  have ok0: "\<forall>f \<in> set (frames cap). \<not> isl (model (self ?s0) f)"
    using assms(3) by simp
  from process_frames_run [OF st0 ok0, of E] obtain s where
    run: "process_frames E ?s0 (frames cap) = Inr s"
    and slf': "self s = slf\<lparr>tracker := foldl (feed E (model slf)) (tracker slf) (frames cap)\<rparr>"
    and st: "detection_stats s = counts_of (\<lambda>k. count_list (map class_id
                   (tracker_outputs E (model slf) (tracker slf) (frames cap))) k)"
    and th: "track_history s = foldl (\<lambda>th d. update_track_history th (tracker_id d) (center_of d))
               Map.empty (filter (\<lambda>d. in_catalog (class_id d))
                 (tracker_outputs E (model slf) (tracker slf) (frames cap)))"
    and fc: "frame_count s = length (frames cap)"
    by auto
  have "process_video E slf v outp =
           ([StartProcessing v,
             VideoInfo (width_of cap) (height_of cap) (py_int (fps_of cap)) (frame_count_of cap),
             Finished (case outp of None \<Rightarrow> default_output_path v | Some p \<Rightarrow> p),
             StatsHeader]
              @ summary (counts_of (\<lambda>k. count_list (map class_id
                   (tracker_outputs E (model slf) (tracker slf) (frames cap))) k)),
            Inr \<lparr>flag = True,
                 self_after = slf\<lparr>tracker := foldl (feed E (model slf)) (tracker slf) (frames cap)\<rparr>,
                 final = Some s\<rparr>)"
    using assms(1,2) run
    by (simp add: process_video_def Let_def open_writer_config py_int_of_int st slf')
  with st th fc show ?thesis by blast
qed

lemma process_video_raise:
  assumes "files E v = Some cap" and "isOpened cap"
    and "frames cap = pre @ f # post"
    and "\<forall>g \<in> set pre. \<not> isl (model slf g)"
    and "model slf f = Inl e"
  shows "process_video E slf v outp =
           ([StartProcessing v,
             VideoInfo (width_of cap) (height_of cap) (py_int (fps_of cap)) (frame_count_of cap)],
            Inl e)"
proof -
  let ?w = "open_writer E cap v outp"
  let ?s0 = "\<lparr>self = slf, detection_stats = init_stats, track_history = Map.empty,
              out = ?w, frame_count = 0\<rparr>"
  have st0: "detection_stats ?s0 = counts_of (\<lambda>k. 0)"
    by (simp add: init_stats_counts)
  have "process_frames E ?s0 (pre @ f # post) = Inl e"
    using assms(4,5) by (intro process_frames_raise [OF st0]) simp_all
  then show ?thesis
    using assms(1,2,3)
    by (simp add: process_video_def Let_def open_writer_config py_int_of_int)
qed


lemma str_replace_no_dot:
  "CHR ''.'' \<notin> set stem \<Longrightarrow>
   str_replace ''.mp4'' new (stem @ rest) = stem @ str_replace ''.mp4'' new rest"
  by (induction stem) auto

lemma default_output_path_mp4:
  "CHR ''.'' \<notin> set stem \<Longrightarrow> default_output_path (stem @ ''.mp4'') = stem @ ''_tracked.mp4''"
  by (simp add: default_output_path_def str_replace_no_dot)

section \<open>The default output path\<close>

text \<open>
  C3. Without an explicit output path the output name is the input name with
  \<open>_tracked\<close> put before the extension, and differs from the input name. Line 90
  replaces the substring \<open>.mp4\<close> wherever it occurs, so this holds for a name of the
  form \<open>stem.mp4\<close> with no other dot (see \<open>default_output_path_mp4\<close>), but an input
  without \<open>.mp4\<close> in its name, such as \<open>clip.avi\<close>, gets itself as output path, and a
  name with two occurrences gets the suffix twice. \<open>main\<close> derives the name from
  \<open>Path(video_path).stem\<close> instead, which serves every extension.
\<close>
theorem default_output_path_unchanged:
  "default_output_path ''clip.avi'' = ''clip.avi''
   \<and> w_path (open_writer E cap ''clip.avi'' None) = ''clip.avi''
   \<and> default_output_path ''a.mp4.mp4'' = ''a_tracked.mp4_tracked.mp4''"
  by (simp add: open_writer_config default_output_path_def)

lemmas toy_defs =
  process_video_def toy_env_def toy_video_def toy_tracker_def toy_model_def
  open_writer_def process_frame_def frame_step_def Let_def py_int_def
  filter_detections_filter person_box_def alien_box_def init_stats_def target_classes_def
  dict_incr_def writer_write_def draw_annotations_def copy_frame_def annotate_detection_def
  mutate_def canvas_ops_def colors_def update_track_history_def trajectory_def str_int_def
  summary_def default_output_path_def

lemma process_video_writer:
  assumes "files E v = Some cap" and "process_video E slf v outp = (ms, Inr r)" and "flag r"
  shows "\<exists>s. final r = Some s
           \<and> w_path (out s) = (case outp of None \<Rightarrow> default_output_path v | Some p \<Rightarrow> p)
           \<and> w_fps (out s) = py_int (fps_of cap)
           \<and> w_size (out s) = (width_of cap, height_of cap)
           \<and> w_opened (out s) = writer_opens E (w_path (out s))
           \<and> (w_opened (out s) \<or> w_frames (out s) = [])"
proof -
  let ?w = "open_writer E cap v outp"
  let ?s0 = "\<lparr>self = slf, detection_stats = init_stats, track_history = Map.empty,
              out = ?w, frame_count = 0\<rparr>"
  from assms obtain s where run: "process_frames E ?s0 (frames cap) = Inr s"
    and fin: "final r = Some s"
    by (auto simp: process_video_def Let_def split: if_splits sum.splits)
  have cfg: "w_path (out s) = w_path ?w \<and> w_fps (out s) = w_fps ?w
             \<and> w_size (out s) = w_size ?w \<and> w_opened (out s) = w_opened ?w"
    using process_frames_config [OF run] by simp
  have "w_opened ?w \<or> w_frames (out s) = []"
    using process_frames_unopened [OF run] by (auto simp: open_writer_config)
  with cfg fin show ?thesis
    using open_writer_config [of E cap v outp] by auto
qed

section \<open>Frame rate and resolution of the output\<close>

text \<open>
  C6, as stated, fails on a source of 29.97 frames per second: line 81 truncates the
  rate with \<open>int\<close>, and the sink is opened at 29.
\<close>

theorem output_rate_differs:
  "fps_of (the (files toy_env ''a.mp4'')) = 2997 / 100
   \<and> w_fps (out (the (final (projr (snd (process_video toy_env toy_tracker ''a.mp4'' None))))))
       = 29
   \<and> real_of_int
        (w_fps (out (the (final (projr (snd (process_video toy_env toy_tracker ''a.mp4'' None)))))))
       \<noteq> fps_of (the (files toy_env ''a.mp4''))"
  by (simp add: toy_defs)

text \<open>
  C6, amended. Every call of \<open>process_video\<close> that returns \<open>True\<close> has written to a
  sink configured with the resolution of the source and with the frame rate of the
  source truncated towards zero to an integer. That rate is less than one frame per
  second away from the source's and equals it exactly when the source's rate is a whole
  number; when the source's rate is not negative, the output rate is not negative and
  never higher than the source's, so it is lower, by less than one frame per second,
  unless the source's rate is a whole number.
\<close>

theorem output_rate_and_resolution:
  assumes "files E video_path = Some cap"
    and "process_video E slf video_path output_path = (ms, Inr r)" and "flag r"
  shows "\<exists>s. final r = Some s
           \<and> w_size (out s) = (width_of cap, height_of cap)
           \<and> w_fps (out s) = py_int (fps_of cap)
           \<and> \<bar>real_of_int (w_fps (out s)) - fps_of cap\<bar> < 1
           \<and> (real_of_int (w_fps (out s)) = fps_of cap \<longleftrightarrow> fps_of cap \<in> \<int>)
           \<and> (0 \<le> fps_of cap \<longrightarrow>
                0 \<le> w_fps (out s)
                \<and> real_of_int (w_fps (out s)) \<le> fps_of cap
                \<and> fps_of cap - 1 < real_of_int (w_fps (out s))
                \<and> (fps_of cap \<notin> \<int> \<longrightarrow> real_of_int (w_fps (out s)) < fps_of cap))"
proof -
  from process_video_writer [OF assms] obtain s where
    s: "final r = Some s" "w_fps (out s) = py_int (fps_of cap)"
       "w_size (out s) = (width_of cap, height_of cap)"
    by blast
  have near: "\<bar>real_of_int (py_int x) - x\<bar> < 1" for x
    unfolding py_int_def by (simp; linarith)
  have exact: "real_of_int (py_int x) = x \<longleftrightarrow> x \<in> \<int>" for x
  proof
    assume "real_of_int (py_int x) = x"
    then show "x \<in> \<int>" by (metis Ints_of_int)
  next
    assume "x \<in> \<int>"
    then show "real_of_int (py_int x) = x"
      by (auto simp: py_int_def elim!: Ints_cases)
  qed
  have below: "0 \<le> py_int x \<and> real_of_int (py_int x) \<le> x \<and> x - 1 < real_of_int (py_int x)"
    if "0 \<le> x" for x
    using that unfolding py_int_def by (simp; linarith)
  have strict: "real_of_int (py_int x) < x" if "0 \<le> x" and "x \<notin> \<int>" for x
    using below [OF that(1)] exact [of x] that(2) by linarith
  from s near [of "fps_of cap"] exact [of "fps_of cap"] below [of "fps_of cap"]
    strict [of "fps_of cap"]
  show ?thesis
    by simp
qed

theorem output_rate_and_resolution_witness:
  "files toy_env ''a.mp4'' = Some (toy_video (2997 / 100) [''a1''])
   \<and> flag (projr (snd (process_video toy_env toy_tracker ''a.mp4'' None)))
   \<and> (0::real) \<le> 2997 / 100 \<and> (2997 / 100 :: real) \<notin> \<int>
   \<and> w_size (out (the (final (projr (snd (process_video toy_env toy_tracker ''a.mp4'' None))))))
       = (640, 480)
   \<and> w_fps (out (the (final (projr (snd (process_video toy_env toy_tracker ''a.mp4'' None))))))
       = 29
   \<and> real_of_int
        (w_fps (out (the (final (projr (snd (process_video toy_env toy_tracker ''a.mp4'' None)))))))
       < 2997 / 100"
proof -
  let ?cap = "toy_video (2997 / 100) [''a1'']"
  let ?r = "projr (snd (process_video toy_env toy_tracker ''a.mp4'' None))"
  have f: "files toy_env ''a.mp4'' = Some ?cap"
    by (simp add: toy_env_def)
  have isr: "\<not> isl (snd (process_video toy_env toy_tracker ''a.mp4'' None))"
    by (simp add: toy_defs)
  then have run: "process_video toy_env toy_tracker ''a.mp4'' None
             = (fst (process_video toy_env toy_tracker ''a.mp4'' None), Inr ?r)"
    by (cases "snd (process_video toy_env toy_tracker ''a.mp4'' None)")
      (simp_all add: prod_eq_iff)
  have fl: "flag ?r"
    by (simp add: toy_defs)
  have rate: "fps_of ?cap = 2997 / 100" and w: "width_of ?cap = 640" and h: "height_of ?cap = 480"
    by (simp_all add: toy_video_def)
  have pos: "(0::real) \<le> 2997 / 100"
    by simp
  have p: "py_int (2997 / 100) = 29"
    by (simp add: py_int_def)
  have frac: "(2997 / 100 :: real) \<notin> \<int>"
  proof
    assume "(2997 / 100 :: real) \<in> \<int>"
    then obtain k :: int where "(2997 / 100 :: real) = of_int k"
      by (auto elim: Ints_cases)
    then have "real_of_int (100 * k) = real_of_int 2997"
      by simp
    then have "100 * k = 2997"
      by (simp only: of_int_eq_iff)
    then show False
      by presburger
  qed
  from output_rate_and_resolution [OF f run fl] obtain s where
    fin: "final ?r = Some s"
    and sz: "w_size (out s) = (width_of ?cap, height_of ?cap)"
    and fp: "w_fps (out s) = py_int (fps_of ?cap)"
    and lo: "0 \<le> fps_of ?cap \<longrightarrow>
                0 \<le> w_fps (out s)
                \<and> real_of_int (w_fps (out s)) \<le> fps_of ?cap
                \<and> fps_of ?cap - 1 < real_of_int (w_fps (out s))
                \<and> (fps_of ?cap \<notin> \<int> \<longrightarrow> real_of_int (w_fps (out s)) < fps_of ?cap)"
    by blast
  have s: "the (final ?r) = s"
    using fin by simp
  have lt: "real_of_int (w_fps (out s)) < 2997 / 100"
    using lo pos frac unfolding rate by blast
  from f fl pos frac sz fp lt show ?thesis
    unfolding s rate w h p by (intro conjI)
qed

section \<open>Classes outside the catalog\<close>

text \<open>
  C7. A detection whose class id \<open>c\<close> is not in the catalog (99, say) never counts and
  never leaves a trajectory point: the filter lets none through to the tracker; whatever
  the tracker returns, the statistics update and the history that \<open>draw_annotations\<close>
  leaves are those of the same detections without the ones of class \<open>c\<close>; and a whole
  run of the loop gives the same result, exception or final state, as the run whose
  detector never reports class \<open>c\<close> (the two states differing in that detector only).
\<close>

theorem non_catalog_class_ignored:
  assumes "\<not> in_catalog c"
  shows "list_all (\<lambda>d. class_id d \<noteq> c) (filter_detections raw)
     \<and> update_stats st (map class_id (filter (\<lambda>d. class_id d \<noteq> c) ds))
         = update_stats st (map class_id ds)
     \<and> snd (snd (draw_annotations cv h frame (filter (\<lambda>d. class_id d \<noteq> c) ds) th))
         = snd (snd (draw_annotations cv h frame ds th))
     \<and> process_frames E (with_model (without_class c (model (self s))) s) fs
         = map_sum id (with_model (without_class c (model (self s)))) (process_frames E s fs)"
proof -
  have "list_all (\<lambda>d. class_id d \<noteq> c) (filter_detections raw)"
    using assms by (auto simp: filter_detections_in_catalog list_all_iff)
  then show ?thesis
    using update_stats_without [OF assms] draw_annotations_without [OF assms]
      process_frames_without_class [OF assms]
    by blast
qed

theorem non_catalog_class_ignored_witness:
  "\<not> in_catalog 99
   \<and> filter_detections [person_box, alien_box] = [person_box]
   \<and> update_stats init_stats (map class_id [person_7, alien_8])
       = Inr [(''person'', 1), (''car'', 0), (''motorcycle'', 0), (''bus'', 0), (''truck'', 0)]
   \<and> snd (snd (draw_annotations canvas_ops [(''f'', [])] 0 [person_7, alien_8] Map.empty)) 8
       = None
   \<and> snd (snd (draw_annotations canvas_ops [(''f'', [])] 0 [person_7, alien_8] Map.empty)) 7
       = Some [(30, 50)]"
proof -
  have n: "\<not> in_catalog 99"
    by (simp add: in_catalog_iff)
  have e: "filter (\<lambda>d. class_id d \<noteq> 99) [person_7, alien_8] = [person_7]"
    by (simp add: person_7_def alien_8_def)
  have a: "update_stats init_stats (map class_id [person_7])
           = Inr [(''person'', 1), (''car'', 0), (''motorcycle'', 0), (''bus'', 0), (''truck'', 0)]"
    by (simp add: person_7_def init_stats_def target_classes_def dict_incr_def)
  have b: "snd (snd (draw_annotations canvas_ops [(''f'', [])] 0 [person_7] Map.empty)) 8 = None"
    "snd (snd (draw_annotations canvas_ops [(''f'', [])] 0 [person_7] Map.empty)) 7
       = Some [(30, 50)]"
    by (simp_all add: draw_annotations_history person_7_def in_catalog_iff center_of_def
          py_int_def update_track_history_def)
  have c: "filter_detections [person_box, alien_box] = [person_box]"
    by (simp add: filter_detections_filter person_box_def alien_box_def)
  note w = non_catalog_class_ignored [OF n, of "[person_box, alien_box]" init_stats
        "[person_7, alien_8]" canvas_ops "[(''f'', [])]" 0 Map.empty toy_env
        "\<lparr>self = toy_tracker, detection_stats = init_stats, track_history = Map.empty,
          out = open_writer toy_env (toy_video 25 []) ''b.mp4'' None, frame_count = 0\<rparr>" "[]"]
  from w have u: "update_stats init_stats (map class_id [person_7])
                  = update_stats init_stats (map class_id [person_7, alien_8])"
    unfolding e by (rule conjunct1 [OF conjunct2])
  from w have d: "snd (snd (draw_annotations canvas_ops [(''f'', [])] 0 [person_7] Map.empty))
                  = snd (snd (draw_annotations canvas_ops [(''f'', [])] 0 [person_7, alien_8]
                        Map.empty))"
    unfolding e by (rule conjunct1 [OF conjunct2 [OF conjunct2]])
  from n c a b show ?thesis
    unfolding u d by (intro conjI)
qed


section \<open>Failures in a run over several videos\<close>

text \<open>A video on whose frames the detector does not raise is processed to its end,
  whether or not its sink opened, and the loop of \<open>main\<close> goes on with the tracker as
  that video left it.\<close>

lemma main_videos_ok:
  assumes "files E v = Some cap" and "isOpened cap"
    and "\<forall>g \<in> set (frames cap). \<not> isl (model trk g)"
  shows "main_videos E dir trk (v # rest)
        = ([StartProcessing v,
            VideoInfo (width_of cap) (height_of cap) (py_int (fps_of cap)) (frame_count_of cap),
            Finished (tracked_path E dir v), StatsHeader]
             @ summary (counts_of (count_list (map class_id
                  (tracker_outputs E (model trk) (tracker trk) (frames cap)))))
             @ fst (main_videos E dir
                  (trk\<lparr>tracker := foldl (feed E (model trk)) (tracker trk) (frames cap)\<rparr>) rest),
           snd (main_videos E dir
                  (trk\<lparr>tracker := foldl (feed E (model trk)) (tracker trk) (frames cap)\<rparr>) rest))"
proof -
  obtain s where "process_video E trk v (Some (tracked_path E dir v)) =
           ([StartProcessing v,
             VideoInfo (width_of cap) (height_of cap) (py_int (fps_of cap)) (frame_count_of cap),
             Finished (tracked_path E dir v), StatsHeader]
              @ summary (counts_of (count_list (map class_id
                   (tracker_outputs E (model trk) (tracker trk) (frames cap))))),
            Inr \<lparr>flag = True,
                 self_after = trk\<lparr>tracker := foldl (feed E (model trk)) (tracker trk) (frames cap)\<rparr>,
                 final = Some s\<rparr>)"
    using process_video_ok [OF assms, of "Some (tracked_path E dir v)"] by auto
  with assms(1) show ?thesis
    by (simp add: Let_def)
qed


text \<open>
  C2, as stated, fails when the detector raises on a frame of the first of two videos:
  nothing catches the exception, \<open>main\<close> ends with it, no message reports the failure
  and the second video is never started.
\<close>

theorem detector_failure_aborts_run:
  "main toy_env \<lparr>videos = [''bad.mp4'', ''b.mp4''], model_arg = ''yolov8n.pt'',
                 output_dir = ''output''\<rparr>
     = ([Banner, Separator, Initializing, ModelLoaded ''yolov8n.pt'', TrackerReady,
         StartProcessing ''bad.mp4'', VideoInfo 640 480 25 1],
        Inl InferenceError)"
  by (simp add: main_def VideoTracker_init_def toy_defs)

text \<open>A sink that does not open is not noticed either: the call reports the video as
  done and returns \<open>True\<close>, and no frame is written.\<close>

lemma unopened_sink_unreported:
  "fst (process_video toy_env toy_tracker ''b.mp4'' (Some ''/readonly/out.mp4''))
     = [StartProcessing ''b.mp4'', VideoInfo 640 480 25 1, Finished ''/readonly/out.mp4'',
        StatsHeader, StatLine ''person'' 1]
   \<and> flag (projr (snd (process_video toy_env toy_tracker ''b.mp4'' (Some ''/readonly/out.mp4''))))
   \<and> w_frames (out (the (final (projr (snd
         (process_video toy_env toy_tracker ''b.mp4'' (Some ''/readonly/out.mp4'')))))))
     = []"
  by (simp add: toy_defs)

text \<open>
  C2, amended. A source that does not exist, or exists and cannot be opened, is reported
  by messages naming the video, and the loop of \<open>main\<close> goes on with the videos that
  follow. An exception that the detector raises on a frame is caught nowhere: it leaves
  \<open>process_video\<close> and the loop of \<open>main\<close> after the two opening messages of that
  video, and the videos that follow are not processed.
\<close>

theorem failures_in_main_loop:
  "(files E v = None \<longrightarrow>
      main_videos E dir trk (v # rest)
        = (MissingFile v # fst (main_videos E dir trk rest), snd (main_videos E dir trk rest)))
   \<and> (files E v = Some cap \<and> \<not> isOpened cap \<longrightarrow>
      main_videos E dir trk (v # rest)
        = ([StartProcessing v, CannotOpen v, ProcessingFailed v]
             @ fst (main_videos E dir trk rest),
           snd (main_videos E dir trk rest)))
   \<and> (files E v = Some cap \<and> isOpened cap \<and> frames cap = pre @ f # post
        \<and> (\<forall>g \<in> set pre. \<not> isl (model trk g)) \<and> model trk f = Inl e \<longrightarrow>
      main_videos E dir trk (v # rest)
        = ([StartProcessing v,
            VideoInfo (width_of cap) (height_of cap) (py_int (fps_of cap)) (frame_count_of cap)],
           Inl e))"
proof (intro conjI impI)
  assume "files E v = None"
  then show "main_videos E dir trk (v # rest)
        = (MissingFile v # fst (main_videos E dir trk rest), snd (main_videos E dir trk rest))"
    by (simp add: Let_def)
next
  assume "files E v = Some cap \<and> \<not> isOpened cap"
  then show "main_videos E dir trk (v # rest)
        = ([StartProcessing v, CannotOpen v, ProcessingFailed v]
             @ fst (main_videos E dir trk rest),
           snd (main_videos E dir trk rest))"
    by (simp add: process_video_def Let_def)
next
  assume a: "files E v = Some cap \<and> isOpened cap \<and> frames cap = pre @ f # post
        \<and> (\<forall>g \<in> set pre. \<not> isl (model trk g)) \<and> model trk f = Inl e"
  then have "process_video E trk v (Some (tracked_path E dir v))
        = ([StartProcessing v,
            VideoInfo (width_of cap) (height_of cap) (py_int (fps_of cap)) (frame_count_of cap)],
           Inl e)"
    by (intro process_video_raise [of E v cap pre f post trk e]) simp_all
  with a show "main_videos E dir trk (v # rest)
        = ([StartProcessing v,
            VideoInfo (width_of cap) (height_of cap) (py_int (fps_of cap)) (frame_count_of cap)],
           Inl e)"
    by simp
qed


theorem failures_in_main_loop_witness:
  "files toy_env ''zz.mp4'' = None
   \<and> fst (main_videos toy_env ''output'' toy_tracker [''zz.mp4'']) = [MissingFile ''zz.mp4'']
   \<and> \<not> isOpened (the (files toy_env ''notes.txt''))
   \<and> fst (main_videos toy_env ''output'' toy_tracker [''notes.txt''])
       = [StartProcessing ''notes.txt'', CannotOpen ''notes.txt'', ProcessingFailed ''notes.txt'']
   \<and> toy_model (''bad'', []) = Inl InferenceError
   \<and> main_videos toy_env ''output'' toy_tracker [''bad.mp4'', ''b.mp4'']
       = ([StartProcessing ''bad.mp4'', VideoInfo 640 480 25 1], Inl InferenceError)"
proof -
  have f1: "files toy_env ''zz.mp4'' = None"
    and f2: "files toy_env ''notes.txt'' = Some ((toy_video 0 [])\<lparr>isOpened := False\<rparr>)"
    and f3: "files toy_env ''bad.mp4'' = Some (toy_video 25 [''bad''])"
    by (simp_all add: toy_env_def)
  have m3: "toy_model (''bad'', []) = Inl InferenceError"
    by (simp add: toy_model_def)
  have a: "fst (main_videos toy_env ''output'' toy_tracker [''zz.mp4'']) = [MissingFile ''zz.mp4'']"
    using failures_in_main_loop [where E = toy_env and v = "''zz.mp4''" and dir = "''output''"
        and trk = toy_tracker and rest = "[]"] f1
    by simp
  have b: "fst (main_videos toy_env ''output'' toy_tracker [''notes.txt''])
       = [StartProcessing ''notes.txt'', CannotOpen ''notes.txt'', ProcessingFailed ''notes.txt'']"
    using failures_in_main_loop [where E = toy_env and v = "''notes.txt''" and dir = "''output''"
        and trk = toy_tracker and rest = "[]"
        and cap = "(toy_video 0 [])\<lparr>isOpened := False\<rparr>"] f2
    by simp
  have c: "main_videos toy_env ''output'' toy_tracker [''bad.mp4'', ''b.mp4'']
       = ([StartProcessing ''bad.mp4'', VideoInfo 640 480 25 1], Inl InferenceError)"
    using failures_in_main_loop [where E = toy_env and v = "''bad.mp4''" and dir = "''output''"
        and trk = toy_tracker and rest = "[''b.mp4'']" and cap = "toy_video 25 [''bad'']"
        and pre = "[]" and f = "(''bad'', [])" and post = "[]" and e = InferenceError] f3 m3
    by (simp add: toy_video_def toy_tracker_def py_int_def)
  from f1 f2 m3 a b c show ?thesis
    by simp
qed

section \<open>What carries over from one video to the next\<close>

text \<open>
  C10. When one instance processes two videos in turn (the detector raising on no
  frame), the statistics and the trajectory history at the end of the second call are
  those of the tracked detections of the second video's frames alone, counted from zero
  and recorded from the empty history; the tracker is not reset in between: the second
  call starts from the tracker state the first call left, and ends in the state
  reached by feeding the frames of both videos, in order, to the initial tracker.
\<close>

theorem tracker_persists_across_videos:
  assumes "files E v1 = Some c1" and "isOpened c1"
    and "files E v2 = Some c2" and "isOpened c2"
    and "\<forall>f \<in> set (frames c1 @ frames c2). \<not> isl (model slf f)"
  shows "let r1 = projr (snd (process_video E slf v1 o1));
             r2 = projr (snd (process_video E (self_after r1) v2 o2));
             s2 = the (final r2)
         in \<not> isl (snd (process_video E slf v1 o1))
          \<and> \<not> isl (snd (process_video E (self_after r1) v2 o2))
          \<and> final r2 \<noteq> None
          \<and> tracker (self_after r1) = foldl (feed E (model slf)) (tracker slf) (frames c1)
          \<and> tracker (self_after r2)
              = foldl (feed E (model slf)) (tracker slf) (frames c1 @ frames c2)
          \<and> detection_stats s2
              = counts_of (count_list (map class_id
                  (tracker_outputs E (model slf) (tracker (self_after r1)) (frames c2))))
          \<and> track_history s2
              = foldl (\<lambda>th d. update_track_history th (tracker_id d) (center_of d)) Map.empty
                  (filter (\<lambda>d. in_catalog (class_id d))
                    (tracker_outputs E (model slf) (tracker (self_after r1)) (frames c2)))"
proof -
  let ?t1 = "foldl (feed E (model slf)) (tracker slf) (frames c1)"
  have ok1: "\<forall>f \<in> set (frames c1). \<not> isl (model slf f)"
    using assms(5) by simp
  from process_video_ok [OF assms(1,2) ok1, of o1] obtain ms1 s1 where
    run1: "process_video E slf v1 o1
             = (ms1, Inr \<lparr>flag = True, self_after = slf\<lparr>tracker := ?t1\<rparr>, final = Some s1\<rparr>)"
    by blast
  let ?slf1 = "slf\<lparr>tracker := ?t1\<rparr>"
  have ok2: "\<forall>f \<in> set (frames c2). \<not> isl (model ?slf1 f)"
    using assms(5) by simp
  from process_video_ok [OF assms(3,4) ok2, of o2] obtain ms2 s2 where
    run2: "process_video E ?slf1 v2 o2
             = (ms2, Inr \<lparr>flag = True,
                  self_after = ?slf1\<lparr>tracker := foldl (feed E (model ?slf1)) (tracker ?slf1) (frames c2)\<rparr>,
                  final = Some s2\<rparr>)"
    and st2: "detection_stats s2 = counts_of (count_list (map class_id
                   (tracker_outputs E (model ?slf1) (tracker ?slf1) (frames c2))))"
    and th2: "track_history s2 = foldl (\<lambda>th d. update_track_history th (tracker_id d) (center_of d))
               Map.empty (filter (\<lambda>d. in_catalog (class_id d))
                 (tracker_outputs E (model ?slf1) (tracker ?slf1) (frames c2)))"
    by blast
  show ?thesis
    using st2 th2 by (simp add: Let_def run1 run2)
qed

theorem tracker_persists_across_videos_witness:
  "files toy_env ''a.mp4'' = Some (toy_video (2997 / 100) [''a1''])
   \<and> files toy_env ''b.mp4'' = Some (toy_video 25 [''b1''])
   \<and> \<not> isl (toy_model (''a1'', [])) \<and> \<not> isl (toy_model (''b1'', []))
   \<and> ByteTrack toy_env = 1 \<and> tracker toy_tracker = 1
   \<and> tracker (self_after (projr (snd (process_video toy_env toy_tracker ''a.mp4'' None)))) = 2
   \<and> tracker (self_after (projr (snd (process_video toy_env
        (self_after (projr (snd (process_video toy_env toy_tracker ''a.mp4'' None))))
        ''b.mp4'' None)))) = 3
   \<and> detection_stats (the (final (projr (snd (process_video toy_env
        (self_after (projr (snd (process_video toy_env toy_tracker ''a.mp4'' None))))
        ''b.mp4'' None)))))
       = [(''person'', 1), (''car'', 0), (''motorcycle'', 0), (''bus'', 0), (''truck'', 0)]
   \<and> track_history (the (final (projr (snd (process_video toy_env
        (self_after (projr (snd (process_video toy_env toy_tracker ''a.mp4'' None))))
        ''b.mp4'' None))))) 2 = Some [(30, 50)]
   \<and> track_history (the (final (projr (snd (process_video toy_env
        (self_after (projr (snd (process_video toy_env toy_tracker ''a.mp4'' None))))
        ''b.mp4'' None))))) 1 = None"
proof -
  have f1: "files toy_env ''a.mp4'' = Some (toy_video (2997 / 100) [''a1''])"
    and f2: "files toy_env ''b.mp4'' = Some (toy_video 25 [''b1''])"
    by (simp_all add: toy_env_def)
  have o1: "isOpened (toy_video (2997 / 100) [''a1''])" and o2: "isOpened (toy_video 25 [''b1''])"
    by (simp_all add: toy_video_def)
  have ok: "\<forall>f \<in> set (frames (toy_video (2997 / 100) [''a1'']) @ frames (toy_video 25 [''b1''])).
              \<not> isl (model toy_tracker f)"
    by (simp add: toy_video_def toy_tracker_def toy_model_def)
  note w = tracker_persists_across_videos [OF f1 o1 f2 o2 ok, of None None, unfolded Let_def]
  have fr: "frames (toy_video (2997 / 100) [''a1'']) = [(''a1'', [])]"
    "frames (toy_video 25 [''b1'']) = [(''b1'', [])]"
    by (simp_all add: toy_video_def)
  have upd: "update_with_detections toy_env ts ds = (ts + int (length ds), number_from ts ds)" for ts ds
    by (simp add: toy_env_def)
  have md: "model toy_tracker = toy_model" "tracker toy_tracker = 1" "ByteTrack toy_env = 1"
    by (simp_all add: toy_tracker_def toy_env_def)
  have fd: "filter_detections [person_box, alien_box] = [person_box]"
    by (simp add: filter_detections_filter person_box_def alien_box_def)
  have t1: "foldl (feed toy_env toy_model) 1 [(''a1'', [])] = 2"
    and t2: "foldl (feed toy_env toy_model) 1 ([(''a1'', [])] @ [(''b1'', [])]) = 3"
    by (simp_all add: feed_def toy_model_def upd fd)
  have outs: "tracker_outputs toy_env toy_model 2 [(''b1'', [])]
              = [\<lparr>xyxy = (10, 20, 50, 80), class_id = 0, confidence = 9 / 10, tracker_id = 2\<rparr>]"
    by (simp add: toy_model_def upd fd) (simp add: person_box_def)
  have st: "counts_of (count_list (map class_id (tracker_outputs toy_env toy_model 2 [(''b1'', [])])))
            = [(''person'', 1), (''car'', 0), (''motorcycle'', 0), (''bus'', 0), (''truck'', 0)]"
    unfolding outs by (simp add: counts_of_def target_classes_def)
  have th: "foldl (\<lambda>th d. update_track_history th (tracker_id d) (center_of d)) Map.empty
              (filter (\<lambda>d. in_catalog (class_id d))
                (tracker_outputs toy_env toy_model 2 [(''b1'', [])])) 2 = Some [(30, 50)]"
    "foldl (\<lambda>th d. update_track_history th (tracker_id d) (center_of d)) Map.empty
              (filter (\<lambda>d. in_catalog (class_id d))
                (tracker_outputs toy_env toy_model 2 [(''b1'', [])])) 1 = None"
    unfolding outs
    by (simp_all add: in_catalog_iff update_track_history_def center_of_def py_int_def)
  let ?r1 = "projr (snd (process_video toy_env toy_tracker ''a.mp4'' None))"
  let ?r2 = "projr (snd (process_video toy_env (self_after ?r1) ''b.mp4'' None))"
  from w have k1: "tracker (self_after ?r1) = 2"
    unfolding fr md t1 by (elim conjE)
  from w have k2: "tracker (self_after ?r2) = 3"
    unfolding fr md t2 by (elim conjE)
  from w have k3: "detection_stats (the (final ?r2))
       = [(''person'', 1), (''car'', 0), (''motorcycle'', 0), (''bus'', 0), (''truck'', 0)]"
    unfolding k1 unfolding fr md st by (elim conjE)
  from w have k4: "track_history (the (final ?r2))
       = foldl (\<lambda>th d. update_track_history th (tracker_id d) (center_of d)) Map.empty
              (filter (\<lambda>d. in_catalog (class_id d))
                (tracker_outputs toy_env toy_model 2 [(''b1'', [])]))"
    unfolding k1 unfolding fr md by (elim conjE)
  have m: "\<not> isl (toy_model (''a1'', []))" "\<not> isl (toy_model (''b1'', []))"
    by (simp_all add: toy_model_def)
  from f1 f2 m md(3,2) k1 k2 k3 th [folded k4] show ?thesis
    by (intro conjI)
qed

end
